theory Spec2Isabelle
  imports Main "HOL-Library.Word"
begin

section \<open>The turret controller of esp32_nerf_turret_gun.ino\<close>

text \<open>
  The sketch keeps its whole state in seven global variables and changes them in four
  request handlers and in \<open>loop\<close>. The model passes that state explicitly. Every function
  returns the list of things it did to the outside world (servo writes, pin writes, serial
  lines, HTTP responses) in program order, together with the new state.

  \<open>unsigned long\<close> is 32 bits wide on the ESP32, so clock readings and the three time
  differences are \<open>32 word\<close>: subtraction wraps around, comparison is unsigned.

  \<open>millis()\<close> is an input. Each call site of the source gets a reading of its own, since
  two calls in one function body need not return the same value.
\<close>

type_synonym u32 = "32 word"

record ctrl =
  motorsRunning :: bool
  motorStartTime :: u32
  continuousMode :: bool
  isFiring :: bool
  lastFireTime :: u32
  triggerPressStartTime :: u32
  triggerPressed :: bool

datatype effect =
    ServoWrite int
  | DigitalWrite int bool
  | SerialPrintln string
  | Send int string string

definition MOTOR1_A :: int where "MOTOR1_A = 12"
definition MOTOR1_B :: int where "MOTOR1_B = 13"
definition MOTOR2_A :: int where "MOTOR2_A = 14"
definition MOTOR2_B :: int where "MOTOR2_B = 27"

definition MOTOR_RUN_TIME :: u32 where "MOTOR_RUN_TIME = 2000"
definition FIRE_INTERVAL :: u32 where "FIRE_INTERVAL = 500"
definition TRIGGER_PRESS_TIME :: u32 where "TRIGGER_PRESS_TIME = 200"

text \<open>
  The initialisers of the globals (lines 75 to 86). \<open>setup\<close> assigns to none of them, so
  this is the state in which the first iteration of \<open>loop\<close> starts.
\<close>

definition initial :: ctrl where
  "initial = \<lparr> motorsRunning = False, motorStartTime = 0, continuousMode = False,
     isFiring = False, lastFireTime = 0, triggerPressStartTime = 0,
     triggerPressed = False \<rparr>"

subsection \<open>Actuation\<close>

text \<open>\<open>HIGH\<close> is \<open>True\<close>, \<open>LOW\<close> is \<open>False\<close>. Neither function touches a global.\<close>

definition runMotors :: "effect list" where
  "runMotors = [DigitalWrite MOTOR1_A True, DigitalWrite MOTOR1_B False,
     DigitalWrite MOTOR2_A True, DigitalWrite MOTOR2_B False,
     SerialPrintln ''Motors started - flywheels spinning'']"

definition stopMotors :: "effect list" where
  "stopMotors = [DigitalWrite MOTOR1_A False, DigitalWrite MOTOR1_B False,
     DigitalWrite MOTOR2_A False, DigitalWrite MOTOR2_B False,
     SerialPrintln ''Motors stopped'']"

text \<open>\<open>fireSingleShot\<close> (lines 204 to 209); \<open>now\<close> is the reading of line 207.\<close>

definition fireSingleShot :: "u32 \<Rightarrow> ctrl \<Rightarrow> effect list \<times> ctrl" where
  "fireSingleShot now s =
     ([ServoWrite 90, SerialPrintln ''Trigger actuated - dart fired!''],
      s\<lparr>triggerPressed := True, triggerPressStartTime := now\<rparr>)"

subsection \<open>Request handlers\<close>

text \<open>
  \<open>handleRoot\<close> (lines 138 to 157) builds the control page piece by piece and sends it.
  It reads and writes none of the globals.
\<close>

definition html :: string where
  "html =
     ''<!DOCTYPE html><html><head><title>Nerf Turret Control</title><style>''
     @ ''body { font-family: Arial; text-align: center; margin: 50px; }''
     @ ''button { padding: 20px; margin: 10px; font-size: 18px; }''
     @ ''.fire-button { background-color: red; color: white; font-size: 24px; }''
     @ ''</style></head><body><h1>Nerf Turret Control</h1>''
     @ ''<button class='fire-button' onclick='singleFire()'>SINGLE FIRE</button><br><br>''
     @ ''<button class='fire-button' onclick='toggleContinuous()' id='continuousBtn'>START CONTINUOUS</button><br><br>''
     @ ''<button onclick='stopFiring()' style='background-color: orange; color: white;'>STOP FIRING</button>''
     @ ''<p>Motors: <span id='motorStatus'>Stopped</span></p>''
     @ ''<p>Fire Mode: <span id='fireMode'>Single</span></p>''
     @ ''<script>''
     @ ''let continuousMode = false;''
     @ ''function singleFire() { fetch('/fire'); document.getElementById('motorStatus').textContent = 'Single Fire!'; document.getElementById('fireMode').textContent = 'Single'; setTimeout(() => { document.getElementById('motorStatus').textContent = 'Stopped'; }, 2000); }''
     @ ''function toggleContinuous() { if (!continuousMode) { continuousMode = true; document.getElementById('continuousBtn').textContent = 'STOP CONTINUOUS'; document.getElementById('continuousBtn').style.backgroundColor = 'darkred'; document.getElementById('motorStatus').textContent = 'Continuous Fire!'; document.getElementById('fireMode').textContent = 'Continuous'; fetch('/continuous?mode=start'); } else { stopContinuous(); } }''
     @ ''function stopContinuous() { continuousMode = false; document.getElementById('continuousBtn').textContent = 'START CONTINUOUS'; document.getElementById('continuousBtn').style.backgroundColor = 'red'; document.getElementById('motorStatus').textContent = 'Stopped'; document.getElementById('fireMode').textContent = 'Single'; fetch('/continuous?mode=stop'); }''
     @ ''function stopFiring() { if (continuousMode) { stopContinuous(); } fetch('/stop').then(() => { document.getElementById('motorStatus').textContent = 'Stopped'; }); }''
     @ ''</script></body></html>''"

definition handleRoot :: "ctrl \<Rightarrow> effect list \<times> ctrl" where
  "handleRoot s = ([Send 200 ''text/html'' html], s)"

text \<open>
  \<open>handleFire\<close> (lines 159 to 166): \<open>t_motor\<close> is the reading of line 163, \<open>t_shot\<close> the
  one taken inside \<open>fireSingleShot\<close>.
\<close>

definition handleFire :: "u32 \<Rightarrow> u32 \<Rightarrow> ctrl \<Rightarrow> effect list \<times> ctrl" where
  "handleFire t_motor t_shot s =
     (let s1 = s\<lparr>motorsRunning := True, motorStartTime := t_motor\<rparr>;
          (shot, s2) = fireSingleShot t_shot s1
      in ([SerialPrintln ''Single FIRE command received!''] @ runMotors @ shot
            @ [Send 200 ''text/plain'' ''SINGLE FIRE!''], s2))"

text \<open>
  \<open>handleContinuous\<close> (lines 168 to 191). The argument \<open>mode\<close> is \<open>None\<close> when
  \<open>server.hasArg("mode")\<close> is false and \<open>Some m\<close> when \<open>server.arg("mode")\<close> is \<open>m\<close>.
  \<open>t_motor\<close> and \<open>t_last\<close> are the readings of lines 177 and 178. A value other than
  \<open>start\<close> and \<open>stop\<close> falls through both comparisons: the source has no final
  \<open>else\<close>, so nothing is sent and nothing changes.
\<close>

definition handleContinuous :: "string option \<Rightarrow> u32 \<Rightarrow> u32 \<Rightarrow> ctrl \<Rightarrow> effect list \<times> ctrl" where
  "handleContinuous mode t_motor t_last s =
     (case mode of
        Some m \<Rightarrow>
          if m = ''start'' then
            ([SerialPrintln ''Starting continuous fire mode''] @ runMotors
               @ [Send 200 ''text/plain'' ''CONTINUOUS FIRE STARTED''],
             s\<lparr>continuousMode := True, isFiring := True, motorsRunning := True,
               motorStartTime := t_motor, lastFireTime := t_last\<rparr>)
          else if m = ''stop'' then
            ([SerialPrintln ''Stopping continuous fire mode''] @ stopMotors
               @ [Send 200 ''text/plain'' ''CONTINUOUS FIRE STOPPED''],
             s\<lparr>continuousMode := False, isFiring := False, motorsRunning := False\<rparr>)
          else ([], s)
      | None \<Rightarrow> ([Send 400 ''text/plain'' ''Missing mode parameter''], s))"

text \<open>\<open>handleStop\<close> (lines 193 to 202).\<close>

definition handleStop :: "ctrl \<Rightarrow> effect list \<times> ctrl" where
  "handleStop s =
     ([SerialPrintln ''Emergency stop command received!''] @ stopMotors
        @ [ServoWrite 0, Send 200 ''text/plain'' ''STOPPED''],
      s\<lparr>continuousMode := False, isFiring := False, motorsRunning := False,
        triggerPressed := False\<rparr>)"

subsection \<open>The control loop\<close>

text \<open>
  The routes registered in \<open>setup\<close> (lines 110 to 113). An iteration in which no request
  for one of them is pending is \<open>None\<close> below.
\<close>

datatype request = ReqRoot | ReqFire | ReqContinuous "string option" | ReqStop

text \<open>
  The readings of \<open>millis()\<close> during one iteration of \<open>loop\<close>, one field per call site:
  the two calls a handler can make, then lines 121, 207 (reached from 122), 123, 126
  and 131.
\<close>

record readings =
  at_handler1 :: u32
  at_handler2 :: u32
  at_cadence :: u32
  at_shot :: u32
  at_lastfire :: u32
  at_release :: u32
  at_motor :: u32

text \<open>\<open>server.handleClient()\<close> (line 119) calls the handler of the pending request.\<close>

definition handleClient :: "request option \<Rightarrow> readings \<Rightarrow> ctrl \<Rightarrow> effect list \<times> ctrl" where
  "handleClient req r s =
     (case req of
        None \<Rightarrow> ([], s)
      | Some ReqRoot \<Rightarrow> handleRoot s
      | Some ReqFire \<Rightarrow> handleFire (at_handler1 r) (at_handler2 r) s
      | Some (ReqContinuous mode) \<Rightarrow> handleContinuous mode (at_handler1 r) (at_handler2 r) s
      | Some ReqStop \<Rightarrow> handleStop s)"

text \<open>The three timer checks of \<open>loop\<close>: lines 121 to 124, 126 to 129 and 131 to 135.\<close>

definition loop_cadence :: "readings \<Rightarrow> ctrl \<Rightarrow> effect list \<times> ctrl" where
  "loop_cadence r s =
     (if continuousMode s \<and> isFiring s \<and> at_cadence r - lastFireTime s > FIRE_INTERVAL then
        (let (shot, s1) = fireSingleShot (at_shot r) s
         in (shot, s1\<lparr>lastFireTime := at_lastfire r\<rparr>))
      else ([], s))"

definition loop_release :: "readings \<Rightarrow> ctrl \<Rightarrow> effect list \<times> ctrl" where
  "loop_release r s =
     (if triggerPressed s \<and> at_release r - triggerPressStartTime s > TRIGGER_PRESS_TIME then
        ([ServoWrite 0], s\<lparr>triggerPressed := False\<rparr>)
      else ([], s))"

definition loop_motor :: "readings \<Rightarrow> ctrl \<Rightarrow> effect list \<times> ctrl" where
  "loop_motor r s =
     (if \<not> continuousMode s \<and> motorsRunning s \<and> at_motor r - motorStartTime s > MOTOR_RUN_TIME then
        (stopMotors @ [SerialPrintln ''Motors stopped automatically''],
         s\<lparr>motorsRunning := False\<rparr>)
      else ([], s))"

text \<open>One iteration of \<open>loop\<close> (lines 118 to 136).\<close>

definition loop :: "request option \<Rightarrow> readings \<Rightarrow> ctrl \<Rightarrow> effect list \<times> ctrl" where
  "loop req r s =
     (let (o0, s0) = handleClient req r s;
          (o1, s1) = loop_cadence r s0;
          (o2, s2) = loop_release r s1;
          (o3, s3) = loop_motor r s2
      in (o0 @ o1 @ o2 @ o3, s3))"

text \<open>Successive iterations, each with its pending request and its clock readings.\<close>

fun run :: "ctrl \<Rightarrow> (request option \<times> readings) list \<Rightarrow> effect list \<times> ctrl" where
  "run s [] = ([], s)"
| "run s ((req, r) # its) =
     (let (o1, s1) = loop req r s; (o2, s2) = run s1 its in (o1 @ o2, s2))"

text \<open>An iteration during which the clock does not advance: every call reads \<open>t\<close>.\<close>

definition at :: "u32 \<Rightarrow> readings" where
  "at t = \<lparr> at_handler1 = t, at_handler2 = t, at_cadence = t, at_shot = t,
     at_lastfire = t, at_release = t, at_motor = t \<rparr>"

subsection \<open>Vocabulary for runs\<close>

text \<open>
  The two requests the control page sends to \<open>/continuous\<close>, the requests that stop the
  motors, and a run of iterations in which no request is pending.
\<close>

definition start_request :: "request option" where
  "start_request = Some (ReqContinuous (Some ''start''))"

definition stop_request :: "request option" where
  "stop_request = Some (ReqContinuous (Some ''stop''))"

definition is_stop_request :: "request option \<Rightarrow> bool" where
  "is_stop_request req = (req = Some ReqStop \<or> req = stop_request)"

definition ticks :: "readings list \<Rightarrow> (request option \<times> readings) list" where
  "ticks rs = map (Pair None) rs"

text \<open>
  The interval check of an iteration issues a pulse: the servo is written to 90 by lines
  121 to 124, after the pending request has been handled.
\<close>

definition cadence_fires :: "request option \<Rightarrow> readings \<Rightarrow> ctrl \<Rightarrow> bool" where
  "cadence_fires req r s = (ServoWrite 90 \<in> set (fst (loop_cadence r (snd (handleClient req r s)))))"

text \<open>A stretch of iterations in which the interval check issues no pulse.\<close>

fun no_cadence :: "ctrl \<Rightarrow> (request option \<times> readings) list \<Rightarrow> bool" where
  "no_cadence s [] = True"
| "no_cadence s ((req, r) # its) =
     (\<not> cadence_fires req r s \<and> no_cadence (snd (loop req r s)) its)"

text \<open>
  For each iteration of a run, whether it commanded the servo to the fire angle.
\<close>

fun pulses :: "ctrl \<Rightarrow> (request option \<times> readings) list \<Rightarrow> bool list" where
  "pulses s [] = []"
| "pulses s ((req, r) # its) =
     (ServoWrite 90 \<in> set (fst (loop req r s))) # pulses (snd (loop req r s)) its"

subsection \<open>Elapsed time\<close>

text \<open>
  \<open>millis()\<close> returns the milliseconds since boot cut to 32 bits. To speak about the time
  that really passes between two pulses, also across a wrap-around of the reading, an
  iteration can be given by the true time of each of its clock calls; \<open>seen\<close> is what
  the sketch reads then. Time does not run backwards: the true times of a run, taken in
  program order, are sorted.
\<close>

record times =
  t_handler1 :: nat
  t_handler2 :: nat
  t_cadence :: nat
  t_shot :: nat
  t_lastfire :: nat
  t_release :: nat
  t_motor :: nat

definition millis :: "nat \<Rightarrow> u32" where
  "millis t = word_of_nat t"

definition seen :: "times \<Rightarrow> readings" where
  "seen ts = \<lparr> at_handler1 = millis (t_handler1 ts), at_handler2 = millis (t_handler2 ts),
     at_cadence = millis (t_cadence ts), at_shot = millis (t_shot ts),
     at_lastfire = millis (t_lastfire ts), at_release = millis (t_release ts),
     at_motor = millis (t_motor ts) \<rparr>"

definition in_order :: "times \<Rightarrow> nat list" where
  "in_order ts = [t_handler1 ts, t_handler2 ts, t_cadence ts, t_shot ts, t_lastfire ts,
     t_release ts, t_motor ts]"

definition monotone_clock :: "(request option \<times> times) list \<Rightarrow> bool" where
  "monotone_clock its = sorted (concat (map (\<lambda>it. in_order (snd it)) its))"

definition observed :: "(request option \<times> times) list \<Rightarrow> (request option \<times> readings) list" where
  "observed its = map (\<lambda>it. (fst it, seen (snd it))) its"

definition at_time :: "nat \<Rightarrow> times" where
  "at_time t = \<lparr> t_handler1 = t, t_handler2 = t, t_cadence = t, t_shot = t,
     t_lastfire = t, t_release = t, t_motor = t \<rparr>"

section \<open>Basic facts\<close>

lemma loop_snd:
  "snd (loop req r s) =
     snd (loop_motor r (snd (loop_release r (snd (loop_cadence r (snd (handleClient req r s)))))))"
  by (simp add: loop_def split: prod.splits)

lemma loop_fst:
  "fst (loop req r s) =
     fst (handleClient req r s)
     @ fst (loop_cadence r (snd (handleClient req r s)))
     @ fst (loop_release r (snd (loop_cadence r (snd (handleClient req r s)))))
     @ fst (loop_motor r (snd (loop_release r (snd (loop_cadence r (snd (handleClient req r s)))))))"
  by (simp add: loop_def split: prod.splits)

lemma run_Cons_snd: "snd (run s ((req, r) # its)) = snd (run (snd (loop req r s)) its)"
  by (simp split: prod.splits)

lemma run_Cons_fst:
  "fst (run s ((req, r) # its)) = fst (loop req r s) @ fst (run (snd (loop req r s)) its)"
  by (simp split: prod.splits)

declare run.simps(2) [simp del]

lemma run_append_snd: "snd (run s (xs @ ys)) = snd (run (snd (run s xs)) ys)"
  by (induction xs arbitrary: s) (auto simp add: run_Cons_snd)

text \<open>Fields after each timer check.\<close>

lemma cadence_fields:
  "continuousMode (snd (loop_cadence r s)) = continuousMode s"
  "isFiring (snd (loop_cadence r s)) = isFiring s"
  "motorsRunning (snd (loop_cadence r s)) = motorsRunning s"
  "motorStartTime (snd (loop_cadence r s)) = motorStartTime s"
  by (simp_all add: loop_cadence_def fireSingleShot_def)

lemma release_fields:
  "continuousMode (snd (loop_release r s)) = continuousMode s"
  "isFiring (snd (loop_release r s)) = isFiring s"
  "motorsRunning (snd (loop_release r s)) = motorsRunning s"
  "motorStartTime (snd (loop_release r s)) = motorStartTime s"
  "lastFireTime (snd (loop_release r s)) = lastFireTime s"
  by (simp_all add: loop_release_def)

lemma motor_fields:
  "continuousMode (snd (loop_motor r s)) = continuousMode s"
  "isFiring (snd (loop_motor r s)) = isFiring s"
  "motorStartTime (snd (loop_motor r s)) = motorStartTime s"
  "lastFireTime (snd (loop_motor r s)) = lastFireTime s"
  "triggerPressed (snd (loop_motor r s)) = triggerPressed s"
  "triggerPressStartTime (snd (loop_motor r s)) = triggerPressStartTime s"
  by (simp_all add: loop_motor_def)

lemma motor_running:
  "motorsRunning (snd (loop_motor r s)) =
     (motorsRunning s \<and> (continuousMode s \<or> \<not> at_motor r - motorStartTime s > MOTOR_RUN_TIME))"
  by (auto simp add: loop_motor_def)

lemma loop_continuousMode:
  "continuousMode (snd (loop req r s)) = continuousMode (snd (handleClient req r s))"
  by (simp add: loop_snd cadence_fields release_fields motor_fields)

lemma loop_isFiring:
  "isFiring (snd (loop req r s)) = isFiring (snd (handleClient req r s))"
  by (simp add: loop_snd cadence_fields release_fields motor_fields)

lemma loop_motorStartTime:
  "motorStartTime (snd (loop req r s)) = motorStartTime (snd (handleClient req r s))"
  by (simp add: loop_snd cadence_fields release_fields motor_fields)

lemma loop_motorsRunning:
  "motorsRunning (snd (loop req r s)) =
     (motorsRunning (snd (handleClient req r s)) \<and>
      (continuousMode (snd (handleClient req r s)) \<or>
       \<not> at_motor r - motorStartTime (snd (handleClient req r s)) > MOTOR_RUN_TIME))"
  by (simp add: loop_snd cadence_fields release_fields motor_fields motor_running)

lemma handleClient_None: "handleClient None r s = ([], s)"
  by (simp add: handleClient_def)

lemma run_append_fst:
  "fst (run s (xs @ ys)) = fst (run s xs) @ fst (run (snd (run s xs)) ys)"
  by (induction xs arbitrary: s) (auto simp add: run_Cons_snd run_Cons_fst)

text \<open>Handlers other than the two stop commands keep continuous mode and the motors on.\<close>

lemma client_keeps_continuous:
  assumes "\<not> is_stop_request req" "continuousMode s" "motorsRunning s"
  shows "continuousMode (snd (handleClient req r s)) \<and> motorsRunning (snd (handleClient req r s))"
proof (cases req)
  case None
  with assms show ?thesis by (simp add: handleClient_def)
next
  case (Some q)
  show ?thesis
  proof (cases q)
    case ReqRoot
    with Some assms show ?thesis by (simp add: handleClient_def handleRoot_def)
  next
    case ReqFire
    with Some assms show ?thesis by (simp add: handleClient_def handleFire_def fireSingleShot_def)
  next
    case (ReqContinuous mode)
    with Some assms show ?thesis
      by (cases mode) (simp_all add: handleClient_def handleContinuous_def is_stop_request_def stop_request_def)
  next
    case ReqStop
    with Some assms show ?thesis by (simp add: is_stop_request_def)
  qed
qed

lemma client_no_motor_off:
  assumes "\<not> is_stop_request req"
  shows "DigitalWrite MOTOR1_A False \<notin> set (fst (handleClient req r s))
       \<and> DigitalWrite MOTOR2_A False \<notin> set (fst (handleClient req r s))
       \<and> SerialPrintln ''Motors stopped automatically'' \<notin> set (fst (handleClient req r s))"
proof (cases req)
  case None
  then show ?thesis by (simp add: handleClient_def)
next
  case (Some q)
  show ?thesis
  proof (cases q)
    case ReqRoot
    with Some show ?thesis by (simp add: handleClient_def handleRoot_def)
  next
    case ReqFire
    with Some show ?thesis
      by (simp add: handleClient_def handleFire_def fireSingleShot_def runMotors_def
          MOTOR1_A_def MOTOR1_B_def MOTOR2_A_def MOTOR2_B_def)
  next
    case (ReqContinuous mode)
    with Some assms show ?thesis
      by (cases mode) (simp_all add: handleClient_def handleContinuous_def is_stop_request_def
          stop_request_def runMotors_def MOTOR1_A_def MOTOR1_B_def MOTOR2_A_def MOTOR2_B_def)
  next
    case ReqStop
    with Some assms show ?thesis by (simp add: is_stop_request_def)
  qed
qed

lemma cadence_release_no_motor_off:
  "DigitalWrite p v \<notin> set (fst (loop_cadence r s))"
  "DigitalWrite p v \<notin> set (fst (loop_release r s))"
  "SerialPrintln ''Motors stopped automatically'' \<notin> set (fst (loop_cadence r s))"
  "SerialPrintln ''Motors stopped automatically'' \<notin> set (fst (loop_release r s))"
  by (simp_all add: loop_cadence_def loop_release_def fireSingleShot_def)

lemma motor_idle_in_continuous: "continuousMode s \<Longrightarrow> loop_motor r s = ([], s)"
  by (simp add: loop_motor_def)

lemma loop_keeps_continuous:
  assumes "\<not> is_stop_request req" "continuousMode s" "motorsRunning s"
  shows "continuousMode (snd (loop req r s)) \<and> motorsRunning (snd (loop req r s))
       \<and> DigitalWrite MOTOR1_A False \<notin> set (fst (loop req r s))
       \<and> DigitalWrite MOTOR2_A False \<notin> set (fst (loop req r s))
       \<and> SerialPrintln ''Motors stopped automatically'' \<notin> set (fst (loop req r s))"
proof -
  from client_keeps_continuous [OF assms]
  have c: "continuousMode (snd (handleClient req r s))"
    and m: "motorsRunning (snd (handleClient req r s))" by simp_all
  have idle: "fst (loop_motor r (snd (loop_release r (snd (loop_cadence r (snd (handleClient req r s))))))) = []"
    by (simp add: motor_idle_in_continuous c cadence_fields release_fields)
  show ?thesis
    using client_no_motor_off [OF assms(1), of r s]
    by (simp add: loop_continuousMode loop_motorsRunning c m loop_fst idle
        cadence_release_no_motor_off)
qed

lemma run_keeps_continuous:
  assumes "\<forall>it \<in> set its. \<not> is_stop_request (fst it)" "continuousMode s" "motorsRunning s"
  shows "continuousMode (snd (run s its)) \<and> motorsRunning (snd (run s its))
       \<and> DigitalWrite MOTOR1_A False \<notin> set (fst (run s its))
       \<and> DigitalWrite MOTOR2_A False \<notin> set (fst (run s its))
       \<and> SerialPrintln ''Motors stopped automatically'' \<notin> set (fst (run s its))"
  using assms
proof (induction its arbitrary: s)
  case Nil
  then show ?case by simp
next
  case (Cons it its)
  obtain req r where it: "it = (req, r)" by (cases it)
  from Cons.prems it have ns: "\<not> is_stop_request req" by simp
  note step = loop_keeps_continuous [OF ns Cons.prems(2) Cons.prems(3), of r]
  from Cons.prems(1) have rest: "\<forall>it \<in> set its. \<not> is_stop_request (fst it)" by simp
  from Cons.IH [OF rest, of "snd (loop req r s)"] step
  show ?case by (simp add: it run_Cons_fst run_Cons_snd)
qed

lemma start_sets_continuous:
  "continuousMode (snd (handleClient start_request r s)) \<and> motorsRunning (snd (handleClient start_request r s))
   \<and> lastFireTime (snd (handleClient start_request r s)) = at_handler2 r
   \<and> isFiring (snd (handleClient start_request r s))"
  by (simp add: start_request_def handleClient_def handleContinuous_def)

lemma client_fire_fields:
  "continuousMode (snd (handleClient (Some ReqFire) r s)) = continuousMode s"
  "isFiring (snd (handleClient (Some ReqFire) r s)) = isFiring s"
  "lastFireTime (snd (handleClient (Some ReqFire) r s)) = lastFireTime s"
  "motorStartTime (snd (handleClient (Some ReqFire) r s)) = at_handler1 r"
  "motorsRunning (snd (handleClient (Some ReqFire) r s))"
  by (simp_all add: handleClient_def handleFire_def fireSingleShot_def)

text \<open>Iterations without a request leave the mode and the motor timer alone.\<close>

lemma ticks_keep_mode:
  "continuousMode (snd (run s (ticks rs))) = continuousMode s
   \<and> motorStartTime (snd (run s (ticks rs))) = motorStartTime s"
  by (induction rs arbitrary: s)
    (simp_all add: ticks_def run_Cons_snd loop_continuousMode loop_motorStartTime
      handleClient_None)

lemma motor_off_iff:
  "(DigitalWrite MOTOR1_A False \<in> set (fst (loop_motor r s))) =
     (\<not> continuousMode s \<and> motorsRunning s \<and> at_motor r - motorStartTime s > MOTOR_RUN_TIME)"
  by (simp add: loop_motor_def stopMotors_def)

text \<open>Where a trigger pulse can come from.\<close>

lemma cadence_pulse_iff:
  "(ServoWrite 90 \<in> set (fst (loop_cadence r s))) =
     (continuousMode s \<and> isFiring s \<and> at_cadence r - lastFireTime s > FIRE_INTERVAL)"
  by (simp add: loop_cadence_def fireSingleShot_def)

lemma release_motor_no_pulse:
  "ServoWrite 90 \<notin> set (fst (loop_release r s))"
  "ServoWrite a \<notin> set (fst (loop_motor r s))"
  by (simp_all add: loop_release_def loop_motor_def stopMotors_def)

lemma loop_pulse_iff:
  "(ServoWrite 90 \<in> set (fst (loop req r s))) =
     (ServoWrite 90 \<in> set (fst (handleClient req r s)) \<or> cadence_fires req r s)"
  by (simp add: loop_fst release_motor_no_pulse cadence_fires_def)

text \<open>The \<open>start\<close> and \<open>stop\<close> commands, and what happens to \<open>lastFireTime\<close>.\<close>

lemma start_no_pulse: "ServoWrite 90 \<notin> set (fst (handleClient start_request r s))"
  by (simp add: handleClient_def start_request_def handleContinuous_def runMotors_def)

lemma stop_client:
  "\<not> continuousMode (snd (handleClient stop_request r s))"
  "\<not> motorsRunning (snd (handleClient stop_request r s))"
  "ServoWrite 90 \<notin> set (fst (handleClient stop_request r s))"
  "DigitalWrite MOTOR1_A False \<in> set (fst (handleClient stop_request r s))"
  "DigitalWrite MOTOR2_A False \<in> set (fst (handleClient stop_request r s))"
  by (simp_all add: handleClient_def stop_request_def handleContinuous_def stopMotors_def)

lemma ticks_keep_firing:
  "isFiring (snd (run s (ticks rs))) = isFiring s"
  by (induction rs arbitrary: s)
    (simp_all add: ticks_def run_Cons_snd loop_isFiring handleClient_None)

lemma lastFire_after_loop:
  "lastFireTime (snd (loop req r s)) =
     (if cadence_fires req r s then at_lastfire r else lastFireTime (snd (handleClient req r s)))"
  by (simp add: loop_snd motor_fields release_fields cadence_fires_def cadence_pulse_iff
      loop_cadence_def fireSingleShot_def)

lemma idle_ticks_no_pulse:
  "\<not> continuousMode s \<Longrightarrow> ServoWrite 90 \<notin> set (fst (run s (ticks rs)))"
proof (induction rs arbitrary: s)
  case Nil
  then show ?case by (simp add: ticks_def)
next
  case (Cons r rs)
  have here: "ServoWrite 90 \<notin> set (fst (loop None r s))"
    using Cons.prems by (simp add: loop_pulse_iff handleClient_None cadence_fires_def cadence_pulse_iff)
  have "\<not> continuousMode (snd (loop None r s))"
    using Cons.prems by (simp add: loop_continuousMode handleClient_None)
  from Cons.IH [OF this] here show ?case
    by (simp add: ticks_def run_Cons_fst)
qed

lemma client_keeps_lastFire:
  assumes "req \<noteq> start_request"
  shows "lastFireTime (snd (handleClient req r s)) = lastFireTime s"
proof (cases req)
  case None
  then show ?thesis by (simp add: handleClient_def)
next
  case (Some q)
  show ?thesis
  proof (cases q)
    case ReqRoot
    with Some show ?thesis by (simp add: handleClient_def handleRoot_def)
  next
    case ReqFire
    with Some show ?thesis by (simp add: client_fire_fields)
  next
    case (ReqContinuous mode)
    with Some assms show ?thesis
      by (cases mode) (simp_all add: handleClient_def handleContinuous_def start_request_def)
  next
    case ReqStop
    with Some show ?thesis by (simp add: handleClient_def handleStop_def)
  qed
qed

lemma client_lastFire:
  "lastFireTime (snd (handleClient req r s)) =
     (if req = start_request then at_handler2 r else lastFireTime s)"
proof (cases "req = start_request")
  case True
  then show ?thesis using start_sets_continuous [of r s] by simp
next
  case False
  then show ?thesis by (simp add: client_keeps_lastFire)
qed

text \<open>
  The reading kept in \<open>lastFireTime\<close> stands for a true time that only moves forward
  while no cadence pulse is issued, and a difference of readings never exceeds the time
  that passed.
\<close>

lemma millis_diff_le:
  assumes "y \<le> x"
  shows "unat (millis x - millis y) \<le> x - y"
proof -
  have "millis x - millis y = (word_of_nat (x - y) :: u32)"
    using assms by (simp add: millis_def)
  then have "unat (millis x - millis y) = take_bit 32 (x - y)"
    by (simp add: unsigned_of_nat)
  then show ?thesis by simp
qed

lemma run_lastFire_bounded:
  assumes "no_cadence s (observed its)"
    and "lastFireTime s = millis T0" "T \<le> T0" "T0 \<le> U"
    and "\<forall>it \<in> set its. T \<le> t_handler2 (snd it) \<and> t_handler2 (snd it) \<le> U"
  shows "\<exists>T'. lastFireTime (snd (run s (observed its))) = millis T' \<and> T \<le> T' \<and> T' \<le> U"
  using assms
proof (induction its arbitrary: s T0)
  case Nil
  then show ?case by (auto simp add: observed_def)
next
  case (Cons it its)
  obtain req ts where it: "it = (req, ts)" by (cases it)
  let ?s1 = "snd (loop req (seen ts) s)"
  from Cons.prems(1) it have nf: "\<not> cadence_fires req (seen ts) s"
    and rest: "no_cadence ?s1 (observed its)" by (simp_all add: observed_def)
  from Cons.prems(5) it have b: "T \<le> t_handler2 ts" "t_handler2 ts \<le> U"
    and later: "\<forall>it \<in> set its. T \<le> t_handler2 (snd it) \<and> t_handler2 (snd it) \<le> U"
    by simp_all
  have l1: "lastFireTime ?s1 = (if req = start_request then millis (t_handler2 ts) else millis T0)"
    using nf Cons.prems(2) by (simp add: lastFire_after_loop client_lastFire seen_def)
  have run1: "snd (run s (observed (it # its))) = snd (run ?s1 (observed its))"
    by (simp add: it observed_def run_Cons_snd)
  show ?case
  proof (cases "req = start_request")
    case True
    with l1 have "lastFireTime ?s1 = millis (t_handler2 ts)" by simp
    from Cons.IH [OF rest this b later] show ?thesis by (simp only: run1)
  next
    case False
    with l1 have "lastFireTime ?s1 = millis T0" by simp
    from Cons.IH [OF rest this Cons.prems(3) Cons.prems(4) later] show ?thesis by (simp only: run1)
  qed
qed

lemma fired_after:
  assumes "lastFireTime u = millis T" "T \<le> c" "at_cadence r = millis c"
    and "at_cadence r - lastFireTime u > FIRE_INTERVAL"
  shows "T + 500 < c"
proof -
  from assms(1,3,4) have "500 < unat (millis c - millis T)"
    by (simp add: FIRE_INTERVAL_def word_less_nat_alt)
  with millis_diff_le [OF assms(2)] show ?thesis by simp
qed

text \<open>The \<open>start\<close> handler in full, and the remaining pins of \<open>stop\<close>.\<close>

lemma start_handler:
  "handleContinuous (Some ''start'') t1 t2 s =
     ([SerialPrintln ''Starting continuous fire mode'',
       DigitalWrite MOTOR1_A True, DigitalWrite MOTOR1_B False,
       DigitalWrite MOTOR2_A True, DigitalWrite MOTOR2_B False,
       SerialPrintln ''Motors started - flywheels spinning'',
       Send 200 ''text/plain'' ''CONTINUOUS FIRE STARTED''],
      s\<lparr>continuousMode := True, isFiring := True, motorsRunning := True,
        motorStartTime := t1, lastFireTime := t2\<rparr>)"
  by (simp add: handleContinuous_def runMotors_def)

lemma stop_pins:
  "DigitalWrite MOTOR1_B False \<in> set (fst (handleClient stop_request r s))"
  "DigitalWrite MOTOR2_B False \<in> set (fst (handleClient stop_request r s))"
  by (simp_all add: handleClient_def stop_request_def handleContinuous_def stopMotors_def)

text \<open>The definitions a concrete run is evaluated with.\<close>

lemmas eval_defs = loop_def handleClient_def handleFire_def handleContinuous_def handleStop_def
  fireSingleShot_def loop_cadence_def loop_release_def loop_motor_def initial_def at_def
  TRIGGER_PRESS_TIME_def MOTOR_RUN_TIME_def FIRE_INTERVAL_def runMotors_def stopMotors_def
  start_request_def stop_request_def run.simps(2)

lemmas time_defs = at_time_def seen_def millis_def observed_def

section \<open>Properties\<close>

text \<open>
  C9. A continuous-mode command without its mode argument is answered with
  \<open>Missing mode parameter\<close> (status 400) and changes no variable of the controller; the
  iteration that serves it does, apart from that response, exactly what an iteration
  without a request does.
\<close>

theorem missing_mode_rejected_unchanged:
  "handleContinuous None t1 t2 s = ([Send 400 ''text/plain'' ''Missing mode parameter''], s)
   \<and> loop (Some (ReqContinuous None)) r s =
       (Send 400 ''text/plain'' ''Missing mode parameter'' # fst (loop None r s),
        snd (loop None r s))"
  by (simp add: handleContinuous_def loop_def handleClient_def split: prod.splits)

text \<open>
  C10. A single-fire command writes \<open>motorsRunning\<close>, \<open>motorStartTime\<close>,
  \<open>triggerPressed\<close> and \<open>triggerPressStartTime\<close> and nothing else: \<open>continuousMode\<close>,
  \<open>isFiring\<close> and \<open>lastFireTime\<close> are as before, so a single shot fired in continuous mode
  does not end continuous mode, also not in the rest of the iteration that serves it.
\<close>

theorem fire_single_frame:
  "snd (handleFire t1 t2 s) = s\<lparr>motorsRunning := True, motorStartTime := t1,
      triggerPressed := True, triggerPressStartTime := t2\<rparr>
   \<and> continuousMode (snd (handleFire t1 t2 s)) = continuousMode s
   \<and> isFiring (snd (handleFire t1 t2 s)) = isFiring s
   \<and> lastFireTime (snd (handleFire t1 t2 s)) = lastFireTime s
   \<and> continuousMode (snd (loop (Some ReqFire) r s)) = continuousMode s
   \<and> isFiring (snd (loop (Some ReqFire) r s)) = isFiring s"
  by (simp add: handleFire_def fireSingleShot_def loop_def handleClient_def
      loop_cadence_def loop_release_def loop_motor_def split: prod.splits)

text \<open>
  C4. From every state one emergency stop ends at rest: continuous mode and firing off,
  motors off with all four motor pins written low, trigger released at once with the servo
  written to 0 whatever the pulse timer says; nothing else happens in that iteration, and
  a second emergency stop does the same and leaves the state as it is.
\<close>

theorem emergency_stop_rest_idempotent:
  "\<not> continuousMode (snd (handleStop s)) \<and> \<not> isFiring (snd (handleStop s))
   \<and> \<not> motorsRunning (snd (handleStop s)) \<and> \<not> triggerPressed (snd (handleStop s))
   \<and> ServoWrite 0 \<in> set (fst (handleStop s))
   \<and> DigitalWrite MOTOR1_A False \<in> set (fst (handleStop s))
   \<and> DigitalWrite MOTOR1_B False \<in> set (fst (handleStop s))
   \<and> DigitalWrite MOTOR2_A False \<in> set (fst (handleStop s))
   \<and> DigitalWrite MOTOR2_B False \<in> set (fst (handleStop s))
   \<and> handleStop (snd (handleStop s)) = handleStop s
   \<and> loop (Some ReqStop) r s = handleStop s"
  by (simp add: handleStop_def stopMotors_def loop_def handleClient_def
      loop_cadence_def loop_release_def loop_motor_def)

text \<open>
  C8, at the input where it fails. A request to \<open>/continuous\<close> whose mode is neither
  \<open>start\<close> nor \<open>stop\<close> gets no response at all: the handler sends nothing and the
  iteration is the one of a loop pass without a request.
\<close>

theorem unknown_mode_no_response:
  "handleContinuous (Some ''foo'') t1 t2 s = ([], s)
   \<and> loop (Some (ReqContinuous (Some ''foo''))) r s = loop None r s"
  by (simp add: handleContinuous_def loop_def handleClient_def)

text \<open>
  C3. After a \<open>start\<close> command the motor-run timer never stops the motors, whatever the
  clock reads: through every later iteration that does not carry a \<open>stop\<close> command or an
  emergency stop, continuous mode stays set, the motors stay on, no motor pin that
  \<open>runMotors\<close> drives high is written low, and the automatic stop of lines 131 to 135
  does not run.
\<close>

theorem continuous_never_auto_stops:
  assumes "\<forall>it \<in> set its. \<not> is_stop_request (fst it)"
  shows "continuousMode (snd (run s ((start_request, r0) # its)))
       \<and> motorsRunning (snd (run s ((start_request, r0) # its)))
       \<and> DigitalWrite MOTOR1_A False \<notin> set (fst (run s ((start_request, r0) # its)))
       \<and> DigitalWrite MOTOR2_A False \<notin> set (fst (run s ((start_request, r0) # its)))
       \<and> SerialPrintln ''Motors stopped automatically'' \<notin> set (fst (run s ((start_request, r0) # its)))"
proof -
  let ?s1 = "snd (loop start_request r0 s)"
  have c: "continuousMode ?s1" and m: "motorsRunning ?s1"
    using start_sets_continuous [of r0 s] by (simp_all add: loop_continuousMode loop_motorsRunning)
  have first: "DigitalWrite MOTOR1_A False \<notin> set (fst (loop start_request r0 s))
       \<and> DigitalWrite MOTOR2_A False \<notin> set (fst (loop start_request r0 s))
       \<and> SerialPrintln ''Motors stopped automatically'' \<notin> set (fst (loop start_request r0 s))"
  proof -
    have ns: "\<not> is_stop_request start_request"
      by (simp add: is_stop_request_def start_request_def stop_request_def)
    have idle: "fst (loop_motor r0 (snd (loop_release r0 (snd (loop_cadence r0 (snd (handleClient start_request r0 s))))))) = []"
      using start_sets_continuous [of r0 s]
      by (simp add: motor_idle_in_continuous cadence_fields release_fields)
    show ?thesis
      using client_no_motor_off [OF ns, of r0 s]
      by (simp add: loop_fst idle cadence_release_no_motor_off)
  qed
  from run_keeps_continuous [OF assms c m] first
  show ?thesis by (simp add: run_Cons_fst run_Cons_snd)
qed

theorem continuous_never_auto_stops_witness:
  "\<not> is_stop_request None \<and> \<not> is_stop_request (Some ReqFire)
   \<and> continuousMode (snd (run initial
        ((start_request, at 0) # [(None, at 3000), (Some ReqFire, at 4000), (None, at 100000)])))
   \<and> motorsRunning (snd (run initial
        ((start_request, at 0) # [(None, at 3000), (Some ReqFire, at 4000), (None, at 100000)])))"
proof -
  have n: "\<not> is_stop_request None" and f: "\<not> is_stop_request (Some ReqFire)"
    by (simp_all add: is_stop_request_def stop_request_def)
  then have h: "\<forall>it \<in> set [(None, at 3000), (Some ReqFire, at 4000), (None, at 100000)].
      \<not> is_stop_request (fst it)"
    by simp
  from continuous_never_auto_stops [OF h, of initial "at 0"] n f show ?thesis by blast
qed

text \<open>
  C2 as it is written fails when the single shot arrives in continuous mode:
  \<open>handleFire\<close> leaves \<open>continuousMode\<close> set, and line 131 then never stops the
  motors. Start at 0 ms, single shot at 100 ms, no further command: at 5000 ms the motors
  still run.
\<close>

theorem single_shot_in_continuous_counterexample:
  "at_motor (at 5000) - at_handler1 (at 100) > MOTOR_RUN_TIME
   \<and> motorsRunning (snd (run initial [(start_request, at 0), (Some ReqFire, at 100), (None, at 5000)]))"
  by (simp add: eval_defs)

text \<open>
  C2, amended. After a single-fire command received while continuous mode is off and
  followed by no further command, every loop iteration whose clock reading at line 131
  is more than \<open>MOTOR_RUN_TIME\<close> past the reading \<open>handleFire\<close> stored (unsigned 32-bit
  difference) ends with the motors stopped; that iteration writes the motor pins low
  exactly when the motors were still running before it.
\<close>

theorem single_shot_motors_stop:
  assumes "\<not> continuousMode s" and "at_motor r - at_handler1 r0 > MOTOR_RUN_TIME"
  shows "\<not> motorsRunning (snd (run s ((Some ReqFire, r0) # ticks rs @ [(None, r)])))
       \<and> motorsRunning (snd (run s ((Some ReqFire, r0) # ticks rs))) =
           (DigitalWrite MOTOR1_A False
              \<in> set (fst (loop None r (snd (run s ((Some ReqFire, r0) # ticks rs))))))"
proof -
  let ?s1 = "snd (loop (Some ReqFire) r0 s)"
  let ?s2 = "snd (run ?s1 (ticks rs))"
  have c1: "\<not> continuousMode ?s1" and t1: "motorStartTime ?s1 = at_handler1 r0"
    using assms(1) by (simp_all add: loop_continuousMode loop_motorStartTime client_fire_fields)
  have c2: "\<not> continuousMode ?s2" and t2: "motorStartTime ?s2 = at_handler1 r0"
    using c1 t1 ticks_keep_mode [of ?s1 rs] by simp_all
  have before: "snd (run s ((Some ReqFire, r0) # ticks rs)) = ?s2"
    by (simp add: run_Cons_snd)
  have final: "snd (run s ((Some ReqFire, r0) # ticks rs @ [(None, r)])) = snd (loop None r ?s2)"
    by (simp add: run_Cons_snd run_append_snd)
  have stopped: "\<not> motorsRunning (snd (loop None r ?s2))"
    using c2 t2 assms(2) by (simp add: loop_motorsRunning handleClient_None)
  have eff: "motorsRunning ?s2 = (DigitalWrite MOTOR1_A False \<in> set (fst (loop None r ?s2)))"
    using c2 t2 assms(2)
    by (simp add: loop_fst handleClient_None cadence_release_no_motor_off motor_off_iff
        cadence_fields release_fields)
  from stopped eff show ?thesis unfolding final before by blast
qed

theorem single_shot_motors_stop_witness:
  "\<not> continuousMode initial \<and> at_motor (at 2001) - at_handler1 (at 0) > MOTOR_RUN_TIME
   \<and> \<not> motorsRunning (snd (run initial ((Some ReqFire, at 0) # ticks [at 100, at 1999] @ [(None, at 2001)])))"
proof -
  have a: "\<not> continuousMode initial" by (simp add: initial_def)
  have b: "at_motor (at 2001) - at_handler1 (at 0) > MOTOR_RUN_TIME"
    by (simp add: at_def MOTOR_RUN_TIME_def)
  from single_shot_motors_stop [OF a b, of "[at 100, at 1999]"] a b show ?thesis by blast
qed

text \<open>
  C5 as it is written fails at equality: a single shot at 0 ms and a loop iteration at
  exactly 2000 ms, where elapsed time equals \<open>MOTOR_RUN_TIME\<close>, leave the motors running
  (the iteration only releases the trigger).
\<close>

theorem timeout_at_equality_counterexample:
  "at_motor (at 2000) - motorStartTime (snd (loop (Some ReqFire) (at 0) initial)) = MOTOR_RUN_TIME
   \<and> \<not> continuousMode (snd (loop (Some ReqFire) (at 0) initial))
   \<and> motorsRunning (snd (loop None (at 2000) (snd (loop (Some ReqFire) (at 0) initial))))
   \<and> fst (loop None (at 2000) (snd (loop (Some ReqFire) (at 0) initial))) = [ServoWrite 0]"
  by (simp add: eval_defs)

text \<open>
  C5, amended. The three timer checks are strict. An iteration without a request runs the
  automatic motor stop if and only if continuous mode is off, the motors run and the
  unsigned 32-bit difference between the reading and \<open>motorStartTime\<close> is greater than
  2000; it issues a cadence pulse if and only if continuous mode and firing are on and the
  difference to \<open>lastFireTime\<close> is greater than 500; it releases the trigger if and only
  if the trigger is pressed (by that very cadence pulse or from before) and the difference
  to the press time is greater than 200. At equality none of them fires.
\<close>

theorem timer_checks_strict:
  "(SerialPrintln ''Motors stopped automatically'' \<in> set (fst (loop None r s))) =
      (\<not> continuousMode s \<and> motorsRunning s \<and> 2000 < unat (at_motor r - motorStartTime s))
   \<and> (ServoWrite 90 \<in> set (fst (loop None r s))) =
      (continuousMode s \<and> isFiring s \<and> 500 < unat (at_cadence r - lastFireTime s))
   \<and> (ServoWrite 0 \<in> set (fst (loop None r s))) =
      (if continuousMode s \<and> isFiring s \<and> 500 < unat (at_cadence r - lastFireTime s)
       then 200 < unat (at_release r - at_shot r)
       else triggerPressed s \<and> 200 < unat (at_release r - triggerPressStartTime s))"
proof -
  have m: "(SerialPrintln ''Motors stopped automatically'' \<in> set (fst (loop None r s))) =
      (\<not> continuousMode s \<and> motorsRunning s \<and> 2000 < unat (at_motor r - motorStartTime s))"
    by (simp add: loop_fst handleClient_None cadence_release_no_motor_off loop_motor_def
        cadence_fields release_fields stopMotors_def MOTOR_RUN_TIME_def word_less_nat_alt)
  have c: "(ServoWrite 90 \<in> set (fst (loop None r s))) =
      (continuousMode s \<and> isFiring s \<and> 500 < unat (at_cadence r - lastFireTime s))"
    by (simp add: loop_pulse_iff handleClient_None cadence_fires_def cadence_pulse_iff
        FIRE_INTERVAL_def word_less_nat_alt)
  have t: "(ServoWrite 0 \<in> set (fst (loop None r s))) =
      (if continuousMode s \<and> isFiring s \<and> 500 < unat (at_cadence r - lastFireTime s)
       then 200 < unat (at_release r - at_shot r)
       else triggerPressed s \<and> 200 < unat (at_release r - triggerPressStartTime s))"
    by (simp add: loop_fst handleClient_None release_motor_no_pulse loop_cadence_def
        fireSingleShot_def loop_release_def FIRE_INTERVAL_def TRIGGER_PRESS_TIME_def
        word_less_nat_alt)
  from m c t show ?thesis by blast
qed

text \<open>
  C1 as it is written fails: \<open>fireSingleShot\<close> never looks at \<open>triggerPressed\<close>. A second
  single shot 50 ms after the first is issued while the trigger is pressed; and in
  continuous mode (start at 0 ms) the cadence pulse of the iteration at 501 ms is issued
  while the trigger is still pressed by a single shot of 400 ms.
\<close>

theorem pulse_while_pressed_counterexample:
  "triggerPressed (snd (loop (Some ReqFire) (at 0) initial))
   \<and> ServoWrite 90 \<in> set (fst (loop (Some ReqFire) (at 50) (snd (loop (Some ReqFire) (at 0) initial))))
   \<and> triggerPressed (snd (run initial [(start_request, at 0), (Some ReqFire, at 400)]))
   \<and> ServoWrite 90 \<in> set (fst (loop None (at 501)
         (snd (run initial [(start_request, at 0), (Some ReqFire, at 400)]))))"
  by (simp add: eval_defs)

text \<open>
  C1, amended. A trigger pulse is issued without regard to \<open>triggerPressed\<close>: a single-fire
  command always issues one, and the interval check of \<open>loop\<close> issues one exactly when
  continuous mode and firing are on and more than \<open>FIRE_INTERVAL\<close> has passed since
  \<open>lastFireTime\<close>. A pulse issued while the trigger is pressed replaces the pulse in
  progress: the outcome does not depend on the earlier flag and press time, and after
  either kind of pulse the trigger is pressed with the new reading as its press time (the
  cadence pulse also stores its reading in \<open>lastFireTime\<close>); without a cadence pulse the
  interval check changes nothing. The continuous-mode commands and the emergency stop
  never issue a pulse.
\<close>

theorem pulse_issue_unguarded:
  "handleFire t1 t2 (s\<lparr>triggerPressed := b, triggerPressStartTime := t\<rparr>) = handleFire t1 t2 s
   \<and> ServoWrite 90 \<in> set (fst (handleFire t1 t2 s))
   \<and> triggerPressed (snd (handleFire t1 t2 s))
   \<and> triggerPressStartTime (snd (handleFire t1 t2 s)) = t2
   \<and> loop_cadence r (s\<lparr>triggerPressed := b, triggerPressStartTime := t\<rparr>) =
       (if continuousMode s \<and> isFiring s \<and> at_cadence r - lastFireTime s > FIRE_INTERVAL
        then loop_cadence r s
        else ([], s\<lparr>triggerPressed := b, triggerPressStartTime := t\<rparr>))
   \<and> (ServoWrite 90 \<in> set (fst (loop_cadence r s))) =
       (continuousMode s \<and> isFiring s \<and> at_cadence r - lastFireTime s > FIRE_INTERVAL)
   \<and> ServoWrite 90 \<notin> set (fst (handleContinuous mode t1 t2 s))
   \<and> ServoWrite 90 \<notin> set (fst (handleStop s))
   \<and> loop_cadence r s =
       (if continuousMode s \<and> isFiring s \<and> at_cadence r - lastFireTime s > FIRE_INTERVAL
        then ([ServoWrite 90, SerialPrintln ''Trigger actuated - dart fired!''],
              s\<lparr>triggerPressed := True, triggerPressStartTime := at_shot r,
                lastFireTime := at_lastfire r\<rparr>)
        else ([], s))
   \<and> triggerPressed (snd (loop_cadence r s)) =
       (triggerPressed s \<or>
        continuousMode s \<and> isFiring s \<and> at_cadence r - lastFireTime s > FIRE_INTERVAL)
   \<and> triggerPressStartTime (snd (loop_cadence r s)) =
       (if continuousMode s \<and> isFiring s \<and> at_cadence r - lastFireTime s > FIRE_INTERVAL
        then at_shot r else triggerPressStartTime s)"
proof -
  have f: "handleFire t1 t2 (s\<lparr>triggerPressed := b, triggerPressStartTime := t\<rparr>) = handleFire t1 t2 s"
    by (simp add: handleFire_def fireSingleShot_def)
  have f2: "ServoWrite 90 \<in> set (fst (handleFire t1 t2 s))
      \<and> triggerPressed (snd (handleFire t1 t2 s))
      \<and> triggerPressStartTime (snd (handleFire t1 t2 s)) = t2"
    by (simp add: handleFire_def fireSingleShot_def)
  have c: "loop_cadence r (s\<lparr>triggerPressed := b, triggerPressStartTime := t\<rparr>) =
       (if continuousMode s \<and> isFiring s \<and> at_cadence r - lastFireTime s > FIRE_INTERVAL
        then loop_cadence r s
        else ([], s\<lparr>triggerPressed := b, triggerPressStartTime := t\<rparr>))"
    by (simp add: loop_cadence_def fireSingleShot_def)
  have h: "ServoWrite 90 \<notin> set (fst (handleContinuous mode t1 t2 s))"
    by (cases mode) (simp_all add: handleContinuous_def runMotors_def stopMotors_def)
  have e: "ServoWrite 90 \<notin> set (fst (handleStop s))"
    by (simp add: handleStop_def stopMotors_def)
  have x: "loop_cadence r s =
       (if continuousMode s \<and> isFiring s \<and> at_cadence r - lastFireTime s > FIRE_INTERVAL
        then ([ServoWrite 90, SerialPrintln ''Trigger actuated - dart fired!''],
              s\<lparr>triggerPressed := True, triggerPressStartTime := at_shot r,
                lastFireTime := at_lastfire r\<rparr>)
        else ([], s))"
    by (simp add: loop_cadence_def fireSingleShot_def)
  have p: "triggerPressed (snd (loop_cadence r s)) =
       (triggerPressed s \<or>
        continuousMode s \<and> isFiring s \<and> at_cadence r - lastFireTime s > FIRE_INTERVAL)"
    by (auto simp add: loop_cadence_def fireSingleShot_def)
  have q: "triggerPressStartTime (snd (loop_cadence r s)) =
       (if continuousMode s \<and> isFiring s \<and> at_cadence r - lastFireTime s > FIRE_INTERVAL
        then at_shot r else triggerPressStartTime s)"
    by (simp add: loop_cadence_def fireSingleShot_def)
  from f f2 c cadence_pulse_iff [of r s] h e x p q show ?thesis by blast
qed

text \<open>
  C6 as it is written fails at the first shot: the \<open>start\<close> command only arms the interval
  (line 178) and fires nothing. After a start at 0 ms the iterations at 0, 1, 250 and
  500 ms issue no pulse and the trigger is still released.
\<close>

theorem no_pulse_at_start_counterexample:
  "pulses initial [(start_request, at 0), (None, at 1), (None, at 250), (None, at 500)]
     = [False, False, False, False]
   \<and> triggerPressed (snd (run initial
        [(start_request, at 0), (None, at 1), (None, at 250), (None, at 500)])) = False"
  by (simp add: eval_defs)

text \<open>
  C6, amended. A \<open>start\<close> command issues no trigger pulse itself: the handler drives the
  motor pins, sets \<open>continuousMode\<close>, \<open>isFiring\<close> and \<open>motorsRunning\<close>, stores its two
  clock readings in \<open>motorStartTime\<close> and \<open>lastFireTime\<close>, answers, and does nothing else.
  From then on the interval check, in the rest of that iteration and in every later
  iteration without a request, issues a pulse exactly when its reading is more than
  \<open>FIRE_INTERVAL\<close> past \<open>lastFireTime\<close>, which then becomes the reading taken after that
  pulse: the first shot comes just over 500 ms after the start, each later shot more than
  500 ms after the one before. A \<open>stop\<close> command switches the motors off in its own
  iteration, all four pins low, and neither that iteration nor any later one without a
  request issues a pulse.
\<close>

theorem continuous_cadence_schedule:
  "handleContinuous (Some ''start'') t1 t2 s =
     ([SerialPrintln ''Starting continuous fire mode'',
       DigitalWrite MOTOR1_A True, DigitalWrite MOTOR1_B False,
       DigitalWrite MOTOR2_A True, DigitalWrite MOTOR2_B False,
       SerialPrintln ''Motors started - flywheels spinning'',
       Send 200 ''text/plain'' ''CONTINUOUS FIRE STARTED''],
      s\<lparr>continuousMode := True, isFiring := True, motorsRunning := True,
        motorStartTime := t1, lastFireTime := t2\<rparr>)
   \<and> (ServoWrite 90 \<in> set (fst (loop start_request r0 s))) =
       (at_cadence r0 - at_handler2 r0 > FIRE_INTERVAL)
   \<and> lastFireTime (snd (loop start_request r0 s)) =
       (if at_cadence r0 - at_handler2 r0 > FIRE_INTERVAL then at_lastfire r0 else at_handler2 r0)
   \<and> (ServoWrite 90 \<in> set (fst (loop None r (snd (run s ((start_request, r0) # ticks rs)))))) =
       (at_cadence r - lastFireTime (snd (run s ((start_request, r0) # ticks rs))) > FIRE_INTERVAL)
   \<and> lastFireTime (snd (loop None r (snd (run s ((start_request, r0) # ticks rs))))) =
       (if at_cadence r - lastFireTime (snd (run s ((start_request, r0) # ticks rs))) > FIRE_INTERVAL
        then at_lastfire r else lastFireTime (snd (run s ((start_request, r0) # ticks rs))))
   \<and> \<not> motorsRunning (snd (loop stop_request r1 u))
   \<and> DigitalWrite MOTOR1_A False \<in> set (fst (loop stop_request r1 u))
   \<and> DigitalWrite MOTOR1_B False \<in> set (fst (loop stop_request r1 u))
   \<and> DigitalWrite MOTOR2_A False \<in> set (fst (loop stop_request r1 u))
   \<and> DigitalWrite MOTOR2_B False \<in> set (fst (loop stop_request r1 u))
   \<and> ServoWrite 90 \<notin> set (fst (run u ((stop_request, r1) # ticks rs1)))"
proof -
  let ?s1 = "snd (loop start_request r0 s)"
  let ?sk = "snd (run s ((start_request, r0) # ticks rs))"
  have cf0: "cadence_fires start_request r0 s = (at_cadence r0 - at_handler2 r0 > FIRE_INTERVAL)"
    using start_sets_continuous [of r0 s] by (simp add: cadence_fires_def cadence_pulse_iff)
  have a: "(ServoWrite 90 \<in> set (fst (loop start_request r0 s))) =
       (at_cadence r0 - at_handler2 r0 > FIRE_INTERVAL)"
    using cf0 by (simp add: loop_pulse_iff start_no_pulse)
  have b: "lastFireTime ?s1 =
       (if at_cadence r0 - at_handler2 r0 > FIRE_INTERVAL then at_lastfire r0 else at_handler2 r0)"
    using cf0 start_sets_continuous [of r0 s] by (simp add: lastFire_after_loop)
  have sk: "?sk = snd (run ?s1 (ticks rs))"
    by (simp add: run_Cons_snd)
  have mode: "continuousMode ?sk \<and> isFiring ?sk"
    using start_sets_continuous [of r0 s] ticks_keep_mode [of ?s1 rs] ticks_keep_firing [of ?s1 rs]
    by (simp add: sk loop_continuousMode loop_isFiring)
  have cf: "cadence_fires None r ?sk = (at_cadence r - lastFireTime ?sk > FIRE_INTERVAL)"
    using mode by (simp add: cadence_fires_def cadence_pulse_iff handleClient_None)
  have c: "(ServoWrite 90 \<in> set (fst (loop None r ?sk))) =
           (at_cadence r - lastFireTime ?sk > FIRE_INTERVAL)"
    using cf by (simp add: loop_pulse_iff handleClient_None)
  have d: "lastFireTime (snd (loop None r ?sk)) =
           (if at_cadence r - lastFireTime ?sk > FIRE_INTERVAL
            then at_lastfire r else lastFireTime ?sk)"
    using cf by (simp add: lastFire_after_loop handleClient_None)
  let ?u1 = "snd (loop stop_request r1 u)"
  have e: "\<not> motorsRunning ?u1"
    by (simp add: loop_motorsRunning stop_client)
  have f: "DigitalWrite MOTOR1_A False \<in> set (fst (loop stop_request r1 u))
         \<and> DigitalWrite MOTOR1_B False \<in> set (fst (loop stop_request r1 u))
         \<and> DigitalWrite MOTOR2_A False \<in> set (fst (loop stop_request r1 u))
         \<and> DigitalWrite MOTOR2_B False \<in> set (fst (loop stop_request r1 u))"
    by (simp add: loop_fst stop_client stop_pins)
  have off: "\<not> continuousMode ?u1"
    by (simp add: loop_continuousMode stop_client)
  have g1: "ServoWrite 90 \<notin> set (fst (loop stop_request r1 u))"
    by (simp add: loop_pulse_iff stop_client cadence_fires_def cadence_pulse_iff)
  have g: "ServoWrite 90 \<notin> set (fst (run u ((stop_request, r1) # ticks rs1)))"
    using g1 idle_ticks_no_pulse [OF off, of rs1]
    by (simp add: run_Cons_fst)
  from start_handler [of t1 t2 s] a b c d e f g show ?thesis by blast
qed

text \<open>
  With the clock read once per iteration: start at 0 ms, shots at 501 and 1002 ms and not
  at 500 or 1001 ms, stop at 1200 ms, no shot at 1503 ms.
\<close>

theorem continuous_cadence_schedule_witness:
  "at_cadence (at 0) - at_handler2 (at 0) \<le> FIRE_INTERVAL
   \<and> ServoWrite 90 \<notin> set (fst (loop start_request (at 0) initial))
   \<and> lastFireTime (snd (loop start_request (at 0) initial)) = at_handler2 (at 0)
   \<and> pulses initial [(start_request, at 0), (None, at 250), (None, at 500), (None, at 501),
         (None, at 1001), (None, at 1002), (stop_request, at 1200), (None, at 1503)]
       = [False, False, False, True, False, True, False, False]"
proof -
  have h: "at_cadence (at 0) - at_handler2 (at 0) \<le> FIRE_INTERVAL"
    by (simp add: at_def FIRE_INTERVAL_def)
  then have n: "\<not> at_cadence (at 0) - at_handler2 (at 0) > FIRE_INTERVAL"
    by (simp add: not_less)
  have sched: "pulses initial [(start_request, at 0), (None, at 250), (None, at 500),
         (None, at 501), (None, at 1001), (None, at 1002), (stop_request, at 1200),
         (None, at 1503)]
       = [False, False, False, True, False, True, False, False]"
    by (simp add: eval_defs)
  from continuous_cadence_schedule [of 0 0 initial "at 0" "at 501" "[]" "at 1200" initial "[]"]
  have "(ServoWrite 90 \<in> set (fst (loop start_request (at 0) initial))) =
       (at_cadence (at 0) - at_handler2 (at 0) > FIRE_INTERVAL)"
    and "lastFireTime (snd (loop start_request (at 0) initial)) =
       (if at_cadence (at 0) - at_handler2 (at 0) > FIRE_INTERVAL
        then at_lastfire (at 0) else at_handler2 (at 0))"
    by blast+
  with n h sched show ?thesis by simp
qed

text \<open>
  C7 as it is written fails when a single shot arrives in continuous mode: after a start
  at 0 ms the cadence pulse of 501 ms is followed by the pulse of a single-fire command at
  600 ms, 99 ms later, with continuous mode on throughout.
\<close>

theorem single_shot_breaks_spacing_counterexample:
  "pulses initial [(start_request, at 0), (None, at 501), (Some ReqFire, at 600)]
     = [False, True, True]
   \<and> continuousMode (snd (run initial [(start_request, at 0), (None, at 501)]))
   \<and> triggerPressStartTime (snd (run initial [(start_request, at 0), (None, at 501)])) = 501
   \<and> continuousMode (snd (run initial
        [(start_request, at 0), (None, at 501), (Some ReqFire, at 600)]))
   \<and> triggerPressStartTime (snd (run initial
        [(start_request, at 0), (None, at 501), (Some ReqFire, at 600)])) = 600
   \<and> (600 :: u32) - 501 < FIRE_INTERVAL"
  by (simp add: eval_defs)

text \<open>
  C7, amended. Two consecutive cadence pulses, those issued by the interval check of
  \<open>loop\<close>, are more than \<open>FIRE_INTERVAL\<close> apart in true time, from the clock call after the
  earlier pulse to the check before the later one and from press to press, whatever ticks
  and commands come in between, a new \<open>start\<close> included, and also when the 32-bit reading
  wraps around. A cadence pulse is issued by the first interval check that finds
  continuous mode and firing on and a reading more than \<open>FIRE_INTERVAL\<close> past
  \<open>lastFireTime\<close>, and the interval then restarts from the reading taken after that pulse.
  A single-fire command issues its pulse at once, outside this spacing, and leaves
  \<open>lastFireTime\<close> as it is.
\<close>

theorem cadence_pulses_spaced:
  assumes mono: "monotone_clock ((req_a, ta) # mid @ [(req_b, tb)])"
    and fa: "cadence_fires req_a (seen ta) s"
    and calm: "no_cadence (snd (loop req_a (seen ta) s)) (observed mid)"
    and fb: "cadence_fires req_b (seen tb) (snd (run (snd (loop req_a (seen ta) s)) (observed mid)))"
  shows "t_lastfire ta + 500 < t_cadence tb
       \<and> t_shot ta + 500 < t_shot tb
       \<and> ServoWrite 90 \<in> set (fst (loop (Some ReqFire) r u))
       \<and> lastFireTime (snd (handleFire t1 t2 u)) = lastFireTime u
       \<and> cadence_fires req r u =
           (continuousMode (snd (handleClient req r u)) \<and> isFiring (snd (handleClient req r u))
            \<and> at_cadence r - lastFireTime (snd (handleClient req r u)) > FIRE_INTERVAL)
       \<and> lastFireTime (snd (loop req r u)) =
           (if cadence_fires req r u then at_lastfire r
            else lastFireTime (snd (handleClient req r u)))"
proof -
  let ?s1 = "snd (loop req_a (seen ta) s)"
  let ?s2 = "snd (run ?s1 (observed mid))"
  let ?s3 = "snd (handleClient req_b (seen tb) ?s2)"
  from mono have o1: "t_shot ta \<le> t_lastfire ta"
    and o2: "\<forall>it \<in> set mid. t_lastfire ta \<le> t_handler2 (snd it) \<and> t_handler2 (snd it) \<le> t_cadence tb"
    and o3: "t_lastfire ta \<le> t_handler2 tb" "t_handler2 tb \<le> t_cadence tb"
      "t_cadence tb \<le> t_shot tb" "t_lastfire ta \<le> t_cadence tb"
    by (auto simp add: monotone_clock_def sorted_append in_order_def)
  have l1: "lastFireTime ?s1 = millis (t_lastfire ta)"
    using fa by (simp add: lastFire_after_loop seen_def)
  from run_lastFire_bounded [OF calm l1 order_refl o3(4) o2]
  obtain T2 where l2: "lastFireTime ?s2 = millis T2"
    and b2: "t_lastfire ta \<le> T2" "T2 \<le> t_cadence tb" by blast
  have "\<exists>T3. lastFireTime ?s3 = millis T3 \<and> t_lastfire ta \<le> T3 \<and> T3 \<le> t_cadence tb"
  proof (cases "req_b = start_request")
    case True
    then have "lastFireTime ?s3 = millis (t_handler2 tb)"
      by (simp add: client_lastFire seen_def)
    with o3 show ?thesis by blast
  next
    case False
    then have "lastFireTime ?s3 = millis T2"
      by (simp add: client_lastFire l2)
    with b2 show ?thesis by blast
  qed
  then obtain T3 where l3: "lastFireTime ?s3 = millis T3"
    and b3: "t_lastfire ta \<le> T3" "T3 \<le> t_cadence tb" by blast
  from fb have "at_cadence (seen tb) - lastFireTime ?s3 > FIRE_INTERVAL"
    by (simp add: cadence_fires_def cadence_pulse_iff)
  from fired_after [OF l3 b3(2) _ this] have "T3 + 500 < t_cadence tb"
    by (simp add: seen_def)
  with b3(1) have spaced: "t_lastfire ta + 500 < t_cadence tb" by simp
  with o1 o3(3) have shots: "t_shot ta + 500 < t_shot tb" by simp
  have shot: "ServoWrite 90 \<in> set (fst (loop (Some ReqFire) r u))"
    by (simp add: loop_pulse_iff handleClient_def handleFire_def fireSingleShot_def)
  have keep: "lastFireTime (snd (handleFire t1 t2 u)) = lastFireTime u"
    by (simp add: handleFire_def fireSingleShot_def)
  have iff: "cadence_fires req r u =
           (continuousMode (snd (handleClient req r u)) \<and> isFiring (snd (handleClient req r u))
            \<and> at_cadence r - lastFireTime (snd (handleClient req r u)) > FIRE_INTERVAL)"
    by (simp add: cadence_fires_def cadence_pulse_iff)
  from spaced shots shot keep iff lastFire_after_loop [of req r u] show ?thesis by blast
qed

text \<open>
  Start at 0 ms, cadence pulse at 501 ms, a single shot at 600 ms, a second \<open>start\<close> at
  700 ms, a tick at 1200 ms, and the next cadence pulse at 1201 ms.
\<close>

theorem cadence_pulses_spaced_witness:
  "monotone_clock ((None, at_time 501)
       # [(Some ReqFire, at_time 600), (start_request, at_time 700), (None, at_time 1200)]
       @ [(None, at_time 1201)])
   \<and> cadence_fires None (seen (at_time 501)) (snd (loop start_request (at 0) initial))
   \<and> no_cadence (snd (loop None (seen (at_time 501)) (snd (loop start_request (at 0) initial))))
       (observed [(Some ReqFire, at_time 600), (start_request, at_time 700), (None, at_time 1200)])
   \<and> cadence_fires None (seen (at_time 1201))
       (snd (run (snd (loop None (seen (at_time 501)) (snd (loop start_request (at 0) initial))))
          (observed [(Some ReqFire, at_time 600), (start_request, at_time 700), (None, at_time 1200)])))
   \<and> t_lastfire (at_time 501) + 500 < t_cadence (at_time 1201)
   \<and> t_shot (at_time 501) + 500 < t_shot (at_time 1201)"
proof -
  have m: "monotone_clock ((None, at_time 501)
       # [(Some ReqFire, at_time 600), (start_request, at_time 700), (None, at_time 1200)]
       @ [(None, at_time 1201)])"
    by (simp add: monotone_clock_def in_order_def at_time_def)
  have a: "cadence_fires None (seen (at_time 501)) (snd (loop start_request (at 0) initial))"
    by (simp add: cadence_fires_def eval_defs time_defs)
  have b: "no_cadence (snd (loop None (seen (at_time 501)) (snd (loop start_request (at 0) initial))))
       (observed [(Some ReqFire, at_time 600), (start_request, at_time 700), (None, at_time 1200)])"
    by (simp add: cadence_fires_def eval_defs time_defs)
  have c: "cadence_fires None (seen (at_time 1201))
       (snd (run (snd (loop None (seen (at_time 501)) (snd (loop start_request (at 0) initial))))
          (observed [(Some ReqFire, at_time 600), (start_request, at_time 700), (None, at_time 1200)])))"
    by (simp add: cadence_fires_def eval_defs time_defs)
  from cadence_pulses_spaced [OF m a b c] m a b c show ?thesis by blast
qed

end
